theory Spec2Isabelle
  imports Complex_Main "HOL-Library.Word"
begin

unbundle bit_operations_syntax

section \<open>Xtark R20 controller: the device protocol engine\<close>

text \<open>
  A shallow embedding of \<^verbatim>\<open>xtark_r20_controller.py\<close>: the packet encoder of
  \<^verbatim>\<open>_send_packet\<close>, the frame scanner of \<^verbatim>\<open>_receive_data\<close>, the telemetry decoder
  and odometry integrator of \<^verbatim>\<open>_process_received_data\<close>, and the session operations
  \<^verbatim>\<open>set_velocity\<close> and \<^verbatim>\<open>disconnect\<close>.

  Conventions of the embedding.
  \<^item> A Python \<^verbatim>\<open>bytes\<close> or \<^verbatim>\<open>bytearray\<close> is a list of 8-bit words; a Python \<^verbatim>\<open>int\<close> is
    a \<open>nat\<close> where it is a length, an index, a byte sum or a command id, and an \<open>int\<close>
    where it can be negative.
  \<^item> A Python \<^verbatim>\<open>float\<close> is a \<open>real\<close>: rounding, infinities and NaN are not modelled,
    \<^verbatim>\<open>math.pi\<close> is \<open>pi\<close>, \<^verbatim>\<open>math.cos\<close> and \<^verbatim>\<open>math.sin\<close> are \<open>cos\<close> and \<open>sin\<close>.
  \<^item> An exception is a value of type \<open>error\<close>; a method that can raise returns an
    \<open>outcome\<close> together with the state the object is left in.
  \<^item> \<^verbatim>\<open>time.time()\<close> is an input: \<open>_process_received_data\<close> takes the value it reads,
    and the read loop takes a clock, a function from the number of readings made so far
    to the value of the next one.
  \<^item> The two threads are not interleaved: each operation runs to its end.
\<close>

subsection \<open>Bytes, errors, constants\<close>

type_synonym byte = "8 word"

datatype error = StructError | IndexError | SerialException

datatype outcome = Returned | Raised error

text \<open>Lines 69--81: the protocol constants.\<close>

definition HEADER1 :: nat where "HEADER1 = 0xAA"
definition HEADER2 :: nat where "HEADER2 = 0x55"

definition CMD_VELOCITY :: nat where "CMD_VELOCITY = 0x50"
definition CMD_IMU_CALIBRATE :: nat where "CMD_IMU_CALIBRATE = 0x51"
definition CMD_RGB_LIGHT :: nat where "CMD_RGB_LIGHT = 0x52"
definition CMD_LIGHT_SAVE :: nat where "CMD_LIGHT_SAVE = 0x53"
definition CMD_BEEPER :: nat where "CMD_BEEPER = 0x54"
definition CMD_ROBOT_TYPE :: nat where "CMD_ROBOT_TYPE = 0x5A"
definition ID_INTEGRATED_DATA :: nat where "ID_INTEGRATED_DATA = 0x10"

definition GRAVITY :: real where "GRAVITY = 9.80665"

text \<open>
  The payload width of each command, read off the \<^verbatim>\<open>struct\<close> formats of the callers of
  \<^verbatim>\<open>_send_packet\<close>: \<^verbatim>\<open>'<hhh'\<close> in \<^verbatim>\<open>set_velocity\<close> (line 156), \<^verbatim>\<open>'B'\<close> in
  \<^verbatim>\<open>calibrate_imu\<close>, \<^verbatim>\<open>save_light_setting\<close>, \<^verbatim>\<open>set_beeper\<close> and \<^verbatim>\<open>_set_robot_type\<close>
  (lines 186, 178, 164, 146), \<^verbatim>\<open>'<BBBBBB'\<close> in \<^verbatim>\<open>set_rgb_light\<close> (line 172), and the
  20 bytes that line 261 asks of the inbound telemetry frame.
\<close>

definition payload_width :: "nat \<Rightarrow> nat option" where
  "payload_width cmd_id =
     (if cmd_id = CMD_VELOCITY then Some 6
      else if cmd_id = CMD_IMU_CALIBRATE then Some 1
      else if cmd_id = CMD_RGB_LIGHT then Some 6
      else if cmd_id = CMD_LIGHT_SAVE then Some 1
      else if cmd_id = CMD_BEEPER then Some 1
      else if cmd_id = CMD_ROBOT_TYPE then Some 1
      else if cmd_id = ID_INTEGRATED_DATA then Some 20
      else None)"

subsection \<open>Frame codec\<close>

text \<open>\<^verbatim>\<open>sum(bytearray(bs)) & 0xFF\<close> (lines 206 and 240).\<close>

definition checksum :: "byte list \<Rightarrow> nat" where
  "checksum bs = sum_list (map unat bs) AND 0xFF"

text \<open>
  Lines 202--207 of \<^verbatim>\<open>_send_packet\<close>: the bytes handed to the transport.
  \<^verbatim>\<open>struct.pack('<BBBB', ...)\<close> raises \<^verbatim>\<open>struct.error\<close> for a field above 255.
\<close>

definition make_packet :: "nat \<Rightarrow> byte list \<Rightarrow> error + byte list" where
  "make_packet cmd_id data =
     (let data_len = length data;
          total_len = 5 + data_len
      in if 255 < total_len \<or> 255 < cmd_id then Inl StructError
         else
           let header = [of_nat HEADER1, of_nat HEADER2, of_nat total_len, of_nat cmd_id];
               packet_without_checksum = header @ data
           in Inr (packet_without_checksum @ [of_nat (checksum packet_without_checksum)]))"

text \<open>
  \<^verbatim>\<open>buffer.find(bytes([HEADER1, HEADER2]))\<close> (line 228): the index of the first
  occurrence of the marker, \<open>None\<close> for Python's \<open>-1\<close>.
\<close>

fun find_header :: "byte list \<Rightarrow> nat option" where
  "find_header (b0 # b1 # bs) =
     (if unat b0 = HEADER1 \<and> unat b1 = HEADER2 then Some 0
      else map_option Suc (find_header (b1 # bs)))"
| "find_header bs = None"

text \<open>
  One run of the body of the inner loop of \<^verbatim>\<open>_receive_data\<close> (lines 228--248), in
  the vocabulary of the specification's decode step. The result is the number of
  leading bytes skipped to reach the marker (\<^verbatim>\<open>header_index\<close>), what the body did
  with the candidate frame, and the buffer it leaves:
  \<^item> \<open>NoFrameYet\<close>: one of the two \<^verbatim>\<open>break\<close>s of lines 233 and 236;
  \<^item> \<open>InvalidDiscard n\<close>: no marker, the buffer of \<open>n\<close> bytes is cleared (line 230), or
    the checksum of the candidate differs and its \<open>n\<close> bytes are dropped (line 248);
  \<^item> \<open>ValidFrame cmd_id data n\<close>: the checksum matches, \<^verbatim>\<open>_process_received_data\<close> is
    called with \<open>cmd_id\<close> and \<open>data\<close>, and the \<open>n\<close> bytes are dropped;
  \<^item> \<open>DecodeRaised IndexError\<close>: \<^verbatim>\<open>packet[-1]\<close> on an empty packet (line 241), or
    \<^verbatim>\<open>packet[3]\<close> on a packet of fewer than four bytes (line 244).
\<close>

datatype decode_result =
    NoFrameYet
  | InvalidDiscard nat
  | ValidFrame nat "byte list" nat
  | DecodeRaised error

definition decode_step :: "byte list \<Rightarrow> nat \<times> decode_result \<times> byte list" where
  "decode_step buffer =
     (case find_header buffer of
        None \<Rightarrow> (0, InvalidDiscard (length buffer), [])
      | Some header_index \<Rightarrow>
          let buffer = drop header_index buffer in
          if length buffer < 4 then (header_index, NoFrameYet, buffer)
          else
            let total_len = unat (buffer ! 2) in
            if length buffer < total_len then (header_index, NoFrameYet, buffer)
            else
              let packet = take total_len buffer in
              if packet = [] then (header_index, DecodeRaised IndexError, buffer)
              else
                let calc_checksum = checksum (butlast packet);
                    recv_checksum = unat (last packet)
                in if calc_checksum = recv_checksum then
                     (if length packet \<le> 3 then (header_index, DecodeRaised IndexError, buffer)
                      else (header_index,
                            ValidFrame (unat (packet ! 3)) (butlast (drop 4 packet)) total_len,
                            drop total_len buffer))
                   else (header_index, InvalidDiscard total_len, drop total_len buffer))"

text \<open>
  The mutation of the checksum-sensitivity property: bit \<open>k\<close> of byte \<open>i\<close> flipped.
\<close>

definition flip_bit_at :: "nat \<Rightarrow> nat \<Rightarrow> byte list \<Rightarrow> byte list" where
  "flip_bit_at i k bs = bs[i := flip_bit k (bs ! i)]"

text \<open>
  The invariant the specification states for the accumulating buffer: empty, or
  starting with the marker and too short for the frame it declares (shorter than the
  length in its third byte, or without a third byte yet).
\<close>

definition rawbuffer_invariant :: "byte list \<Rightarrow> bool" where
  "rawbuffer_invariant buffer =
     (buffer = [] \<or>
      (map unat (take 2 buffer) = [HEADER1, HEADER2] \<and>
       (length buffer < 3 \<or> length buffer < unat (buffer ! 2))))"

subsection \<open>Packing and unpacking\<close>

text \<open>
  \<^verbatim>\<open>struct.unpack\<close> of a little-endian 16-bit field, signed (\<^verbatim>\<open>h\<close>) and unsigned
  (\<^verbatim>\<open>H\<close>), from its low and high byte.
\<close>

definition unpack_h :: "byte \<Rightarrow> byte \<Rightarrow> int" where
  "unpack_h lo hi = sint (word_cat hi lo :: 16 word)"

definition unpack_H :: "byte \<Rightarrow> byte \<Rightarrow> int" where
  "unpack_H lo hi = uint (word_cat hi lo :: 16 word)"

text \<open>\<^verbatim>\<open>struct.unpack('<hhhhhhhhhH', data)\<close> (line 266): a \<^verbatim>\<open>struct.error\<close> unless
  \<open>data\<close> has 20 bytes.\<close>

definition unpack_hhhhhhhhhH :: "byte list \<Rightarrow> error + int list" where
  "unpack_hhhhhhhhhH data =
     (if length data \<noteq> 20 then Inl StructError
      else Inr [unpack_h (data ! 0) (data ! 1), unpack_h (data ! 2) (data ! 3),
                unpack_h (data ! 4) (data ! 5), unpack_h (data ! 6) (data ! 7),
                unpack_h (data ! 8) (data ! 9), unpack_h (data ! 10) (data ! 11),
                unpack_h (data ! 12) (data ! 13), unpack_h (data ! 14) (data ! 15),
                unpack_h (data ! 16) (data ! 17), unpack_H (data ! 18) (data ! 19)])"

text \<open>\<^verbatim>\<open>struct.pack('<h', v)\<close>: a \<^verbatim>\<open>struct.error\<close> outside the signed 16-bit range.\<close>

definition pack_h :: "int \<Rightarrow> error + byte list" where
  "pack_h v =
     (if v < - 32768 \<or> 32767 < v then Inl StructError
      else let w = (word_of_int v :: 16 word) in Inr [ucast w, ucast (drop_bit 8 w)])"

text \<open>\<^verbatim>\<open>struct.pack('<hhh', a, b, c)\<close> (line 156).\<close>

definition pack_hhh :: "int \<Rightarrow> int \<Rightarrow> int \<Rightarrow> error + byte list" where
  "pack_hhh a b c =
     (case pack_h a of
        Inl e \<Rightarrow> Inl e
      | Inr x \<Rightarrow>
          (case pack_h b of
             Inl e \<Rightarrow> Inl e
           | Inr y \<Rightarrow>
               (case pack_h c of
                  Inl e \<Rightarrow> Inl e
                | Inr z \<Rightarrow> Inr (x @ y @ z))))"

text \<open>Python's \<^verbatim>\<open>int(r)\<close> on a float: truncation towards zero.\<close>

definition py_int :: "real \<Rightarrow> int" where
  "py_int r = (if 0 \<le> r then \<lfloor>r\<rfloor> else \<lceil>r\<rceil>)"

subsection \<open>The session state\<close>

text \<open>Lines 38--63: the three dataclasses. Field names carry a prefix where two
  classes share a name.\<close>

record Velocity =
  vel_vx :: real
  vel_vy :: real
  vel_vw :: real

record IMUData =
  accel_x :: real
  accel_y :: real
  accel_z :: real
  gyro_x :: real
  gyro_y :: real
  gyro_z :: real

record OdometryData =
  odom_x :: real
  odom_y :: real
  odom_theta :: real
  odom_vx :: real
  odom_vy :: real
  odom_vw :: real

text \<open>
  The transport, \<^verbatim>\<open>serial.Serial\<close>, is outside the repository. Its model keeps what
  the claims observe: whether the port is open, every byte written so far, and whether
  a write fails. \<^verbatim>\<open>write\<close> raises \<^verbatim>\<open>SerialException\<close> on a closed or failing port.
\<close>

record Serial =
  is_open :: bool
  written :: "byte list"
  write_fails :: bool

definition serial_write :: "byte list \<Rightarrow> Serial \<Rightarrow> error + Serial" where
  "serial_write packet t =
     (if is_open t \<and> \<not> write_fails t then Inr (t\<lparr>written := written t @ packet\<rparr>)
      else Inl SerialException)"

definition serial_close :: "Serial \<Rightarrow> Serial" where
  "serial_close t = t\<lparr>is_open := False\<rparr>"

text \<open>
  Lines 88--104: the fields of \<^verbatim>\<open>XtarkR20Controller\<close> that the modelled methods read
  or write. \<open>ticks\<close> is not a field of the class: it counts the readings of
  \<^verbatim>\<open>time.time()\<close> made by the read loop, and indexes the clock.
\<close>

record XtarkR20Controller =
  serial_conn :: "Serial option"
  is_connected :: bool
  is_running :: bool
  current_velocity :: Velocity
  odometry_data :: OdometryData
  imu_data :: IMUData
  battery_voltage :: real
  last_update_time :: real
  ticks :: nat

subsection \<open>Commands\<close>

text \<open>
  \<^verbatim>\<open>_send_packet\<close> (lines 198--210). The \<^verbatim>\<open>try\<close> catches \<^verbatim>\<open>SerialException\<close> only,
  and logs it; a \<^verbatim>\<open>struct.error\<close> of line 204 leaves the method.
\<close>

definition send_packet :: "nat \<Rightarrow> byte list \<Rightarrow> XtarkR20Controller \<Rightarrow> outcome \<times> XtarkR20Controller" where
  "send_packet cmd_id data s =
     (case serial_conn s of
        None \<Rightarrow> (Returned, s)
      | Some t \<Rightarrow>
          if \<not> is_connected s then (Returned, s)
          else
            (case make_packet cmd_id data of
               Inl e \<Rightarrow> (Raised e, s)
             | Inr packet \<Rightarrow>
                 (case serial_write packet t of
                    Inl e \<Rightarrow> (Returned, s)
                  | Inr t' \<Rightarrow> (Returned, s\<lparr>serial_conn := Some t'\<rparr>))))"

text \<open>\<^verbatim>\<open>set_velocity\<close> (lines 150--159).\<close>

definition set_velocity :: "real \<Rightarrow> real \<Rightarrow> real \<Rightarrow> XtarkR20Controller \<Rightarrow> outcome \<times> XtarkR20Controller" where
  "set_velocity vx vy vw s =
     (if \<not> is_connected s then (Returned, s)
      else
        let vx_int = py_int (vx * 1000);
            vy_int = py_int (vy * 1000);
            vw_int = py_int (vw * 1000)
        in case pack_hhh vx_int vy_int vw_int of
             Inl e \<Rightarrow> (Raised e, s)
           | Inr data \<Rightarrow>
               (case send_packet CMD_VELOCITY data s of
                  (Raised e, s') \<Rightarrow> (Raised e, s')
                | (Returned, s') \<Rightarrow>
                    (Returned, s'\<lparr>current_velocity := \<lparr>vel_vx = vx, vel_vy = vy, vel_vw = vw\<rparr>\<rparr>)))"

text \<open>
  \<^verbatim>\<open>disconnect\<close> (lines 131--142). The \<^verbatim>\<open>sleep\<close> and the \<^verbatim>\<open>join\<close> of the read
  thread have no effect on the state modelled here.
\<close>

definition disconnect :: "XtarkR20Controller \<Rightarrow> outcome \<times> XtarkR20Controller" where
  "disconnect s =
     (if is_connected s then
        (case set_velocity 0 0 0 s of
           (Raised e, s') \<Rightarrow> (Raised e, s')
         | (Returned, s') \<Rightarrow>
             (Returned,
              s'\<lparr>is_running := False,
                 serial_conn := map_option serial_close (serial_conn s'),
                 is_connected := False\<rparr>))
      else (Returned, s))"

text \<open>\<^verbatim>\<open>__exit__\<close> (lines 302--303): the end of the \<^verbatim>\<open>with\<close> block, on a normal
  return and on an exception alike.\<close>

definition exit_scope :: "XtarkR20Controller \<Rightarrow> outcome \<times> XtarkR20Controller" where
  "exit_scope s = disconnect s"

subsection \<open>Telemetry decoding and odometry\<close>

text \<open>
  \<^verbatim>\<open>_process_received_data\<close> (lines 255--297); \<open>current_time\<close> is what
  \<^verbatim>\<open>time.time()\<close> returns at line 257. The \<^verbatim>\<open>except struct.error\<close> of line 294 only
  logs.
\<close>

definition process_received_data :: "real \<Rightarrow> nat \<Rightarrow> byte list \<Rightarrow> XtarkR20Controller \<Rightarrow> XtarkR20Controller" where
  "process_received_data current_time cmd_id data s =
     (let dt = current_time - last_update_time s;
          s1 =
            (if cmd_id = ID_INTEGRATED_DATA \<and> length data = 20 then
               (case unpack_hhhhhhhhhH data of
                  Inl e \<Rightarrow> s
                | Inr raw_values \<Rightarrow>
                    let imu = \<lparr>accel_x = (real_of_int (raw_values ! 0) / 32768) * 2 * GRAVITY,
                               accel_y = (real_of_int (raw_values ! 1) / 32768) * 2 * GRAVITY,
                               accel_z = (real_of_int (raw_values ! 2) / 32768) * 2 * GRAVITY,
                               gyro_x = (real_of_int (raw_values ! 3) / 32768) * 500 * (pi / 180),
                               gyro_y = (real_of_int (raw_values ! 4) / 32768) * 500 * (pi / 180),
                               gyro_z = (real_of_int (raw_values ! 5) / 32768) * 500 * (pi / 180)\<rparr>;
                        od = (odometry_data s)\<lparr>odom_vx := real_of_int (raw_values ! 6) / 1000,
                                                odom_vy := real_of_int (raw_values ! 7) / 1000,
                                                odom_vw := real_of_int (raw_values ! 8) / 1000\<rparr>;
                        od' =
                          (if 0 < dt then
                             let delta_x = (odom_vx od * cos (odom_theta od)
                                            - odom_vy od * sin (odom_theta od)) * dt;
                                 delta_y = (odom_vx od * sin (odom_theta od)
                                            + odom_vy od * cos (odom_theta od)) * dt;
                                 delta_theta = odom_vw od * dt
                             in od\<lparr>odom_x := odom_x od + delta_x,
                                    odom_y := odom_y od + delta_y,
                                    odom_theta := odom_theta od + delta_theta\<rparr>
                           else od)
                    in s\<lparr>imu_data := imu, odometry_data := od',
                         battery_voltage := real_of_int (raw_values ! 9) / 100\<rparr>)
             else s)
      in s1\<lparr>last_update_time := current_time\<rparr>)"

subsection \<open>The read loop\<close>

text \<open>
  The inner loop of \<^verbatim>\<open>_receive_data\<close> (lines 227--248): the decode step is run while
  at least five bytes are buffered and it neither breaks nor raises. Clearing the
  buffer and breaking (line 230) is the same as going on with the empty buffer, which
  the guard stops. Each valid frame is handed to \<^verbatim>\<open>_process_received_data\<close>, which
  reads the clock once. The result is how the loop ended, the buffer, and the state.
\<close>

function drain :: "(nat \<Rightarrow> real) \<Rightarrow> byte list \<Rightarrow> XtarkR20Controller
                     \<Rightarrow> outcome \<times> byte list \<times> XtarkR20Controller" where
  "drain clock buffer s =
     (if 5 \<le> length buffer then
        (case decode_step buffer of
           (header_index, NoFrameYet, buffer') \<Rightarrow> (Returned, buffer', s)
         | (header_index, InvalidDiscard n, buffer') \<Rightarrow> drain clock buffer' s
         | (header_index, ValidFrame cmd_id data n, buffer') \<Rightarrow>
             drain clock buffer'
               ((process_received_data (clock (ticks s)) cmd_id data s)\<lparr>ticks := Suc (ticks s)\<rparr>)
         | (header_index, DecodeRaised e, buffer') \<Rightarrow> (Raised e, buffer', s))
      else (Returned, buffer, s))"
  by pat_completeness auto
termination
proof (relation "measure (\<lambda>(clock, buffer, s). length buffer)")
  fix clock :: "nat \<Rightarrow> real" and buffer :: "byte list" and s :: XtarkR20Controller
    and x header_index y r buffer' n
  assume "5 \<le> length buffer" "(header_index, y) = decode_step buffer" "(r, buffer') = y"
    "r = InvalidDiscard n"
  then have "decode_step buffer = (header_index, InvalidDiscard n, buffer')" by simp
  with \<open>5 \<le> length buffer\<close> have "length buffer' < length buffer"
    by (auto simp: decode_step_def Let_def split: option.splits if_splits)
  then show "((clock, buffer', s), clock, buffer, s) \<in> measure (\<lambda>(clock, buffer, s). length buffer)"
    by simp
next
  fix clock :: "nat \<Rightarrow> real" and buffer :: "byte list" and s :: XtarkR20Controller
    and x header_index y r buffer' cmd_id data n
  assume "5 \<le> length buffer" "(header_index, y) = decode_step buffer" "(r, buffer') = y"
    "r = ValidFrame cmd_id data n"
  then have "decode_step buffer = (header_index, ValidFrame cmd_id data n, buffer')" by simp
  with \<open>5 \<le> length buffer\<close> have "length buffer' < length buffer"
    by (auto simp: decode_step_def Let_def split: option.splits if_splits)
  then show "((clock, buffer', 
      (process_received_data (clock (ticks s)) cmd_id data s)\<lparr>ticks := Suc (ticks s)\<rparr>),
      clock, buffer, s) \<in> measure (\<lambda>(clock, buffer, s). length buffer)"
    by simp
qed simp

declare drain.simps [simp del]

text \<open>
  What the transport gives one pass of the outer loop (lines 224--225): the bytes
  waiting (none when \<^verbatim>\<open>in_waiting\<close> is 0), or an exception.
\<close>

datatype rx = Available "byte list" | ReadError

text \<open>
  \<^verbatim>\<open>_receive_data\<close> (lines 219--253), run against a finite script of what the
  transport gives at each pass; the state is returned when the script ends, when
  \<open>is_running\<close> is off, or when the \<^verbatim>\<open>except Exception\<close> of line 251 has run.
\<close>

fun receive_data :: "(nat \<Rightarrow> real) \<Rightarrow> rx list \<Rightarrow> byte list \<Rightarrow> XtarkR20Controller
                        \<Rightarrow> XtarkR20Controller" where
  "receive_data clock [] buffer s = s"
| "receive_data clock (r # rs) buffer s =
     (if is_running s then
        (case r of
           ReadError \<Rightarrow> s\<lparr>is_connected := False\<rparr>
         | Available bs \<Rightarrow>
             (case drain clock (buffer @ bs) s of
                (Returned, buffer', s') \<Rightarrow> receive_data clock rs buffer' s'
              | (Raised e, buffer', s') \<Rightarrow> s'\<lparr>is_connected := False\<rparr>))
      else s)"

subsection \<open>Example states\<close>

text \<open>
  The state the constructor leaves (lines 88--104); \<open>t0\<close> is what \<^verbatim>\<open>time.time()\<close>
  returns at line 100.
\<close>

definition init_controller :: "real \<Rightarrow> XtarkR20Controller" where
  "init_controller t0 =
     \<lparr>serial_conn = None, is_connected = False, is_running = False,
      current_velocity = \<lparr>vel_vx = 0, vel_vy = 0, vel_vw = 0\<rparr>,
      odometry_data = \<lparr>odom_x = 0, odom_y = 0, odom_theta = 0,
                       odom_vx = 0, odom_vy = 0, odom_vw = 0\<rparr>,
      imu_data = \<lparr>accel_x = 0, accel_y = 0, accel_z = 0, gyro_x = 0, gyro_y = 0, gyro_z = 0\<rparr>,
      battery_voltage = 0, last_update_time = t0, ticks = 0\<rparr>"

text \<open>
  A session in the Connected state, for the examples: the port open and working,
  nothing written yet, the read loop running, the rest as the constructor leaves it.
\<close>

definition example_session :: "real \<Rightarrow> XtarkR20Controller" where
  "example_session t0 =
     (init_controller t0)\<lparr>serial_conn := Some \<lparr>is_open = True, written = [], write_fails = False\<rparr>,
                          is_connected := True, is_running := True\<rparr>"

text \<open>
  Two telemetry payloads for the examples. In the first the robot reports 1 m/s
  forward (raw 1000 in field 6) and nothing else. In the second the accelerometer
  reports raw 16384 on its first axis, the velocity is raw 300 forward and raw -200
  sideways, and the battery reads raw 1200.
\<close>

definition forward_sample :: "byte list" where
  "forward_sample =
     [0, 0, 0, 0, 0, 0, 0, 0, 0, 0, 0, 0, 0xE8, 0x03, 0, 0, 0, 0, 0, 0]"

definition scaled_sample :: "byte list" where
  "scaled_sample =
     [0x00, 0x40, 0, 0, 0, 0, 0, 0, 0, 0, 0, 0, 0x2C, 0x01, 0x38, 0xFF, 0, 0, 0xB0, 0x04]"


subsection \<open>Properties of the frame codec\<close>

lemma and_ff: "(n::nat) AND 0xFF = n mod 256"
  using take_bit_eq_mask [of 8 n] by (simp add: take_bit_eq_mod mask_eq_exp_minus_1)

lemma checksum_lt: "checksum bs < 256"
  by (simp add: checksum_def and_ff)

lemma unat_of_nat_byte: "n < 256 \<Longrightarrow> unat (of_nat n :: byte) = n"
  by (simp add: unat_of_nat)

lemma make_packet_Inr:
  assumes "cmd_id \<le> 255" "length data \<le> 250"
  shows "make_packet cmd_id data =
           Inr ([0xAA, 0x55, of_nat (5 + length data), of_nat cmd_id] @ data @
                [of_nat (checksum ([0xAA, 0x55, of_nat (5 + length data), of_nat cmd_id] @ data))])"
  using assms by (simp add: make_packet_def Let_def HEADER1_def HEADER2_def)

lemma make_packet_InrD:
  assumes "make_packet cmd_id data = Inr packet"
  shows "cmd_id \<le> 255" and "length data \<le> 250"
  using assms by (auto simp: make_packet_def Let_def split: if_splits)

lemma find_header_drop: "find_header buffer = Some k \<Longrightarrow> find_header (drop k buffer) = Some 0"
  by (induction buffer arbitrary: k rule: find_header.induct) (auto split: if_splits)

lemma decode_step_resync:
  assumes "find_header buffer = Some k"
  shows "decode_step buffer = (k, snd (decode_step (drop k buffer)))"
  using assms find_header_drop [OF assms]
  by (simp add: decode_step_def Let_def)

lemma decode_step_frame:
  assumes "cmd_id \<le> 255" "length data \<le> 250"
  defines "hdr \<equiv> [0xAA, 0x55, of_nat (5 + length data), of_nat cmd_id :: byte]"
  shows "decode_step (hdr @ data @ [of_nat (checksum (hdr @ data))]) =
           (0, ValidFrame cmd_id data (5 + length data), [])"
proof -
  let ?pkt = "hdr @ data @ [of_nat (checksum (hdr @ data)) :: byte]"
  have len: "length ?pkt = 5 + length data" by (simp add: hdr_def)
  have fh: "find_header ?pkt = Some 0" by (simp add: hdr_def HEADER1_def HEADER2_def)
  have tl: "unat (?pkt ! 2) = 5 + length data"
    using assms(2) unat_of_nat_byte [of "5 + length data"] by (simp add: hdr_def)
  have bl: "butlast ?pkt = hdr @ data" by (simp add: butlast_append)
  have la: "last ?pkt = of_nat (checksum (hdr @ data))" by simp
  have c3: "unat (?pkt ! 3) = cmd_id" using assms(1) by (simp add: hdr_def unat_of_nat_byte)
  have d4: "butlast (drop 4 ?pkt) = data" by (simp add: hdr_def butlast_append)
  have ne: "?pkt \<noteq> []" by simp
  show ?thesis
    unfolding decode_step_def fh
    using len tl bl la c3 d4 ne
    by (simp add: Let_def unat_of_nat_byte checksum_lt del: append.simps butlast.simps)
qed

lemma decode_step_make_packet:
  assumes "make_packet cmd_id data = Inr packet"
  shows "decode_step packet = (0, ValidFrame cmd_id data (5 + length data), [])"
    and "length packet = 5 + length data"
proof -
  note b = make_packet_InrD [OF assms]
  have eq: "packet = [0xAA, 0x55, of_nat (5 + length data), of_nat cmd_id] @ data @
                [of_nat (checksum ([0xAA, 0x55, of_nat (5 + length data), of_nat cmd_id] @ data))]"
    using assms unfolding make_packet_Inr [OF b] by simp
  show "decode_step packet = (0, ValidFrame cmd_id data (5 + length data), [])"
    unfolding eq by (rule decode_step_frame [OF b])
  show "length packet = 5 + length data"
    unfolding eq by simp
qed

lemma payload_width_bounds:
  assumes "payload_width cmd_id = Some n"
  shows "cmd_id \<le> 255" and "n \<le> 250"
  using assms
  by (auto simp: payload_width_def CMD_VELOCITY_def CMD_IMU_CALIBRATE_def CMD_RGB_LIGHT_def
      CMD_LIGHT_SAVE_def CMD_BEEPER_def CMD_ROBOT_TYPE_def ID_INTEGRATED_DATA_def
      split: if_splits)

text \<open>
  C1 (round trip). For every supported command id and every payload of the width that
  command uses, \<open>make_packet\<close> succeeds, and the decode step run on exactly the bytes it
  produced skips no leading byte (there is no discard before the frame), reports the
  valid frame with the same command id and payload and the consumed length
  \<open>5 + length payload\<close>, and leaves the buffer empty.
\<close>

theorem roundtrip:
  assumes "payload_width cmd_id = Some (length payload)"
  shows "\<exists>packet. make_packet cmd_id payload = Inr packet \<and>
           length packet = 5 + length payload \<and>
           decode_step packet = (0, ValidFrame cmd_id payload (5 + length payload), [])"
proof -
  from payload_width_bounds [OF assms]
  have "make_packet cmd_id payload \<noteq> Inl StructError"
    by (simp add: make_packet_Inr)
  then obtain packet where p: "make_packet cmd_id payload = Inr packet"
    by (cases "make_packet cmd_id payload") (auto simp: make_packet_def Let_def split: if_splits)
  with decode_step_make_packet [OF p] show ?thesis by simp
qed

theorem roundtrip_witness:
  "payload_width 0x54 = Some (length [1 :: byte]) \<and>
   make_packet 0x54 [1] = Inr [0xAA, 0x55, 0x06, 0x54, 0x01, 0x5A] \<and>
   decode_step [0xAA, 0x55, 0x06, 0x54, 0x01, 0x5A] = (0, ValidFrame 0x54 [1] 6, [])"
proof -
  have w: "payload_width 0x54 = Some (length [1 :: byte])"
    by (simp add: payload_width_def CMD_VELOCITY_def CMD_IMU_CALIBRATE_def CMD_RGB_LIGHT_def
      CMD_LIGHT_SAVE_def CMD_BEEPER_def)
  have m: "make_packet 0x54 [1] = Inr [0xAA, 0x55, 0x06, 0x54, 0x01, 0x5A]"
    by (simp add: make_packet_def Let_def HEADER1_def HEADER2_def checksum_def and_ff)
  from roundtrip [OF w] m w show ?thesis by simp
qed

subsection \<open>Checksum sensitivity\<close>

lemma flip_int: "flip_bit k (n::int) = (if bit n k then n - 2 ^ k else n + 2 ^ k)"
  using unset_bit_eq [of k n] set_bit_eq [of k n] by (simp add: flip_bit_eq_if)

lemma uint_flip_bit: "k < 8 \<Longrightarrow> uint (flip_bit k (x :: byte)) = flip_bit k (uint x)"
  by (rule bit_eqI) (auto simp: bit_simps dest: bit_imp_le_length)

lemma unat_flip_bit:
  assumes "k < 8"
  shows "unat (flip_bit k (x :: byte)) + 2 ^ k = unat x \<or> unat (flip_bit k x) = unat x + 2 ^ k"
proof -
  have "uint (flip_bit k x) + 2 ^ k = uint x \<or> uint (flip_bit k x) = uint x + 2 ^ k"
    using assms by (simp add: uint_flip_bit flip_int)
  then have "int (unat (flip_bit k x) + 2 ^ k) = int (unat x) \<or>
             int (unat (flip_bit k x)) = int (unat x + 2 ^ k)"
    by simp
  then show ?thesis by (simp only: of_nat_eq_iff)
qed

lemma pow_lt_256: "k < 8 \<Longrightarrow> (2::nat) ^ k < 256"
  using power_strict_increasing [of k 8 "2::nat"] by simp

lemma mod_shift:
  assumes "0 < d" "d < 256"
  shows "(n + d) mod 256 \<noteq> (n::nat) mod 256"
proof -
  let ?r = "n mod 256"
  have r: "?r < 256" by simp
  have eq: "(n + d) mod 256 = (?r + d) mod 256" by (simp add: mod_add_left_eq)
  show ?thesis
  proof (cases "?r + d < 256")
    case True
    then have "(?r + d) mod 256 = ?r + d" by (rule mod_less)
    with eq assms(1) show ?thesis by simp
  next
    case False
    then have "(?r + d) mod 256 = (?r + d - 256) mod 256" by (simp add: le_mod_geq)
    also have "\<dots> = ?r + d - 256" using r assms(2) by (intro mod_less) linarith
    finally show ?thesis using eq assms(2) False by linarith
  qed
qed

lemma unat_flip_bit_mod:
  assumes "k < 8"
  shows "(a + unat (flip_bit k (x :: byte))) mod 256 \<noteq> (a + unat x) mod 256"
proof -
  let ?d = "(2::nat) ^ k"
  have d: "0 < ?d" "?d < 256" using pow_lt_256 [OF assms] by simp_all
  from unat_flip_bit [OF assms, of x] show ?thesis
  proof
    assume "unat (flip_bit k x) + ?d = unat x"
    then have "a + unat x = (a + unat (flip_bit k x)) + ?d" by simp
    with mod_shift [OF d, of "a + unat (flip_bit k x)"] show ?thesis by (metis add.assoc)
  next
    assume "unat (flip_bit k x) = unat x + ?d"
    then have "a + unat (flip_bit k x) = (a + unat x) + ?d" by simp
    with mod_shift [OF d, of "a + unat x"] show ?thesis by (metis add.assoc)
  qed
qed

lemma flip_bit_neq: "k < 8 \<Longrightarrow> flip_bit k (x :: byte) \<noteq> x"
  using unat_flip_bit_mod [of k 0 x] by auto

lemma sum_list_update_unat:
  "i < length xs \<Longrightarrow>
     sum_list (map unat (xs[i := v])) = sum_list (map unat (take i xs)) + unat v + sum_list (map unat (drop (Suc i) xs))"
  by (simp add: upd_conv_take_nth_drop)

lemma sum_list_nth_unat:
  "i < length xs \<Longrightarrow>
     sum_list (map unat xs) = sum_list (map unat (take i xs)) + unat (xs ! i) + sum_list (map unat (drop (Suc i) xs))"
  using sum_list_update_unat [of i xs "xs ! i"] by simp

lemma checksum_flip:
  assumes "i < length xs" "k < 8"
  shows "checksum (xs[i := flip_bit k (xs ! i)]) \<noteq> checksum xs"
proof -
  let ?a = "sum_list (map unat (take i xs))" and ?b = "sum_list (map unat (drop (Suc i) xs))"
  have "(?a + ?b + unat (flip_bit k (xs ! i))) mod 256 \<noteq> (?a + ?b + unat (xs ! i)) mod 256"
    by (rule unat_flip_bit_mod [OF assms(2)])
  then show ?thesis
    unfolding checksum_def and_ff
    by (simp add: sum_list_update_unat [OF assms(1)] sum_list_nth_unat [OF assms(1)] ac_simps)
qed

lemma find_header_0:
  assumes "2 \<le> length f" "unat (f ! 0) = HEADER1" "unat (f ! 1) = HEADER2"
  shows "find_header f = Some 0"
proof -
  from assms(1) obtain a b r where "f = a # b # r"
    by (cases f; cases "tl f") auto
  with assms(2,3) show ?thesis by simp
qed

lemma decode_step_bad_checksum:
  assumes "4 \<le> length f" "unat (f ! 0) = HEADER1" "unat (f ! 1) = HEADER2"
    and "unat (f ! 2) = length f" "checksum (butlast f) \<noteq> unat (last f)"
  shows "decode_step f = (0, InvalidDiscard (length f), [])"
proof -
  have "find_header f = Some 0" using assms(1-3) by (intro find_header_0) simp_all
  moreover have "f \<noteq> []" using assms(1) by auto
  ultimately show ?thesis
    using assms(1,4,5) by (simp add: decode_step_def Let_def)
qed

lemma make_packet_wf:
  assumes "make_packet cmd_id data = Inr packet"
  shows "length packet = 5 + length data"
    and "unat (packet ! 0) = HEADER1" and "unat (packet ! 1) = HEADER2"
    and "unat (packet ! 2) = length packet"
    and "checksum (butlast packet) = unat (last packet)"
proof -
  note b = make_packet_InrD [OF assms]
  let ?hdr = "[0xAA, 0x55, of_nat (5 + length data), of_nat cmd_id :: byte]"
  have eq: "packet = ?hdr @ data @ [of_nat (checksum (?hdr @ data))]"
    using assms unfolding make_packet_Inr [OF b] by simp
  show len: "length packet = 5 + length data" unfolding eq by simp
  show "unat (packet ! 0) = HEADER1" unfolding eq by (simp add: HEADER1_def)
  show "unat (packet ! 1) = HEADER2" unfolding eq by (simp add: HEADER2_def)
  have "unat (packet ! 2) = 5 + length data"
    unfolding eq using b(2) unat_of_nat_byte [of "5 + length data"] by simp
  with len show "unat (packet ! 2) = length packet" by simp
  have "butlast packet = ?hdr @ data" "last packet = of_nat (checksum (?hdr @ data))"
    unfolding eq by (simp_all add: butlast_append)
  then show "checksum (butlast packet) = unat (last packet)"
    by (simp only: unat_of_nat_byte [OF checksum_lt])
qed

lemma decode_step_flip_tail:
  assumes p: "make_packet cmd_id data = Inr packet"
    and i: "3 \<le> i" "i < length packet" and k: "k < 8"
  shows "decode_step (flip_bit_at i k packet) = (0, InvalidDiscard (length packet), [])"
proof -
  note wf = make_packet_wf [OF p]
  let ?f = "flip_bit_at i k packet"
  have len: "length ?f = length packet" by (simp add: flip_bit_at_def)
  have h: "unat (?f ! 0) = HEADER1" "unat (?f ! 1) = HEADER2" "unat (?f ! 2) = length ?f"
    using i wf by (simp_all add: flip_bit_at_def)
  have ne: "packet \<noteq> []" using i by auto
  have "checksum (butlast ?f) \<noteq> unat (last ?f)"
  proof (cases "i = length packet - 1")
    case True
    then have "butlast ?f = butlast packet" "last ?f = flip_bit k (last packet)"
      using ne by (simp_all add: flip_bit_at_def butlast_list_update last_list_update last_conv_nth)
    with wf(5) flip_bit_neq [OF k, of "last packet"] show ?thesis
      by (simp add: word_unat_eq_iff)
  next
    case False
    with i have ib: "i < length (butlast packet)" by simp
    from False have "butlast ?f = (butlast packet)[i := flip_bit k (butlast packet ! i)]"
      "last ?f = last packet"
      using ne ib by (simp_all add: flip_bit_at_def butlast_list_update last_list_update nth_butlast)
    with checksum_flip [OF ib k] wf(5) show ?thesis by simp
  qed
  with h len i wf(1) show ?thesis
    using decode_step_bad_checksum [of ?f] by simp
qed

lemma flip_bit_0x55: "k < 8 \<Longrightarrow> unat (flip_bit k (b :: byte)) \<noteq> 0xAA \<or> unat b \<noteq> 0x55"
proof -
  assume "k < 8"
  then have "k = 0 \<or> k = 1 \<or> k = 2 \<or> k = 3 \<or> k = 4 \<or> k = 5 \<or> k = 6 \<or> k = 7"
    by linarith
  moreover have "b = 0x55" if h: "unat b = 0x55"
  proof -
    have "b = of_nat (unat b)" by simp
    then show ?thesis unfolding h by simp
  qed
  ultimately show ?thesis
    by (auto simp: flip_bit_eq_xor)
qed

lemma find_header_flip_sync:
  assumes p: "make_packet cmd_id data = Inr packet"
    and i: "i < 2" and k: "k < 8" and tail: "find_header (drop 2 packet) = None"
  shows "find_header (flip_bit_at i k packet) = None"
proof -
  note wf = make_packet_wf [OF p]
  from wf(1) obtain a b r where pk: "packet = a # b # r"
    by (cases packet; cases "tl packet") auto
  with wf(2,3) tail have ab: "unat a = HEADER1" "unat b = HEADER2" "find_header r = None" by simp_all
  from wf(1) pk obtain c r' where r: "r = c # r'" by (cases r) auto
  have na: "unat (flip_bit k a) \<noteq> unat a" and nb: "unat (flip_bit k b) \<noteq> unat b"
    using flip_bit_neq [OF k] by (simp_all add: word_unat_eq_iff)
  from i have "i = 0 \<or> i = 1" by linarith
  then show ?thesis
  proof
    assume "i = 0"
    with na ab show ?thesis
      by (simp add: pk r flip_bit_at_def HEADER1_def HEADER2_def)
  next
    assume "i = 1"
    with nb ab flip_bit_0x55 [OF k, of b] show ?thesis
      by (simp add: pk r flip_bit_at_def HEADER1_def HEADER2_def)
  qed
qed

text \<open>
  C2 (checksum sensitivity), as the code has it. Take a frame made by \<open>make_packet\<close> and
  flip one bit of one byte other than the length byte. If the byte is the command id,
  a payload byte or the checksum byte, the decode step finds the marker at offset 0,
  finds the checksum wrong and discards exactly the frame. If the byte is one of the two
  marker bytes and the rest of the frame holds no marker, the decode step finds no
  marker and clears the buffer, again the whole frame. In both cases no valid frame is
  reported. A flip in the length byte is left out: the counterexample below shows it
  reported as \<open>NoFrameYet\<close>.
\<close>

theorem bit_flip_discarded:
  assumes "make_packet cmd_id payload = Inr frame"
    and "i < length frame" and "k < 8" and "i \<noteq> 2"
    and "2 \<le> i \<or> find_header (drop 2 frame) = None"
  shows "decode_step (flip_bit_at i k frame) = (0, InvalidDiscard (length frame), [])"
proof (cases "3 \<le> i")
  case True
  with assms show ?thesis by (intro decode_step_flip_tail)
next
  case False
  with assms(4,5) have "i < 2" "find_header (drop 2 frame) = None" by auto
  from find_header_flip_sync [OF assms(1) this(1) assms(3) this(2)]
  show ?thesis by (simp add: decode_step_def flip_bit_at_def)
qed

lemma example_packet: "make_packet 0x54 [1] = Inr [0xAA, 0x55, 0x06, 0x54, 0x01, 0x5A]"
  by (simp add: make_packet_def Let_def HEADER1_def HEADER2_def checksum_def and_ff)

theorem bit_flip_discarded_witness:
  "decode_step (flip_bit_at 4 0 [0xAA, 0x55, 0x06, 0x54, 0x01, 0x5A]) = (0, InvalidDiscard 6, []) \<and>
   decode_step (flip_bit_at 0 7 [0xAA, 0x55, 0x06, 0x54, 0x01, 0x5A]) = (0, InvalidDiscard 6, []) \<and>
   flip_bit_at 4 0 [0xAA, 0x55, 0x06, 0x54, 0x01, 0x5A] = [0xAA, 0x55, 0x06, 0x54, 0x00, 0x5A] \<and>
   flip_bit_at 0 7 [0xAA, 0x55, 0x06, 0x54, 0x01, 0x5A] = [0x2A, 0x55, 0x06, 0x54, 0x01, 0x5A]"
proof -
  have t: "find_header (drop 2 [0xAA, 0x55, 0x06, 0x54, 0x01, 0x5A]) = None"
    by (simp add: HEADER1_def HEADER2_def)
  from bit_flip_discarded [OF example_packet, of 4 0] bit_flip_discarded [OF example_packet, of 0 7] t
  show ?thesis by (simp add: flip_bit_at_def flip_bit_eq_xor)
qed

text \<open>
  The claim as stated fails for the length byte: bit 3 of the length byte of the beeper
  frame turns the declared length 6 into 14, the buffer is shorter than that, and the
  decode step breaks with \<open>NoFrameYet\<close>, keeping all six bytes.
\<close>

theorem bit_flip_counterexample:
  "make_packet 0x54 [1] = Inr [0xAA, 0x55, 0x06, 0x54, 0x01, 0x5A] \<and>
   flip_bit_at 2 3 [0xAA, 0x55, 0x06, 0x54, 0x01, 0x5A] = [0xAA, 0x55, 0x0E, 0x54, 0x01, 0x5A] \<and>
   decode_step (flip_bit_at 2 3 [0xAA, 0x55, 0x06, 0x54, 0x01, 0x5A]) =
     (0, NoFrameYet, [0xAA, 0x55, 0x0E, 0x54, 0x01, 0x5A])"
  by (simp add: make_packet_def Let_def HEADER1_def HEADER2_def checksum_def and_ff
      flip_bit_at_def flip_bit_eq_xor decode_step_def)

subsection \<open>Resynchronisation\<close>

lemma find_header_garbage:
  "find_header garbage = None \<Longrightarrow> find_header (garbage @ 0xAA # 0x55 # bs) = Some (length garbage)"
  by (induction garbage rule: find_header.induct)
     (auto simp: HEADER1_def HEADER2_def split: if_splits)

lemma make_packet_marker:
  assumes "make_packet cmd_id data = Inr packet"
  shows "\<exists>bs. packet = 0xAA # 0x55 # bs"
  using assms make_packet_InrD [OF assms] by (auto simp: make_packet_Inr)

text \<open>
  C8 (resynchronisation), as the code has it. For every frame made by \<open>make_packet\<close>
  and every garbage prefix that holds no marker, the decode step on garbage followed
  by the frame skips exactly the garbage and reports the same valid frame (command id,
  payload, consumed length) as the decode step on the frame alone, leaving the buffer
  empty.
\<close>

theorem resync:
  assumes "make_packet cmd_id payload = Inr frame" and "find_header garbage = None"
  shows "decode_step (garbage @ frame) =
           (length garbage, ValidFrame cmd_id payload (5 + length payload), []) \<and>
         decode_step frame = (0, ValidFrame cmd_id payload (5 + length payload), [])"
proof -
  from make_packet_marker [OF assms(1)] obtain bs where f: "frame = 0xAA # 0x55 # bs" by blast
  have "find_header (garbage @ frame) = Some (length garbage)"
    unfolding f by (rule find_header_garbage [OF assms(2)])
  from decode_step_resync [OF this] decode_step_make_packet(1) [OF assms(1)]
  show ?thesis by simp
qed

theorem resync_witness:
  "find_header [0x00, 0xAA, 0x01] = None \<and>
   decode_step ([0x00, 0xAA, 0x01] @ [0xAA, 0x55, 0x06, 0x54, 0x01, 0x5A]) =
     (3, ValidFrame 0x54 [1] 6, []) \<and>
   decode_step [0xAA, 0x55, 0x06, 0x54, 0x01, 0x5A] = (0, ValidFrame 0x54 [1] 6, [])"
proof -
  have g: "find_header [0x00, 0xAA, 0x01] = None"
    by (simp add: HEADER1_def HEADER2_def)
  from resync [OF example_packet g] g show ?thesis by simp
qed

text \<open>
  The claim as stated fails for garbage that holds the marker: the decode step
  synchronises on the marker inside the garbage, reads 255 as the declared length and
  breaks with \<open>NoFrameYet\<close>; the frame behind it is not reported.
\<close>

theorem resync_counterexample:
  "find_header [0x01, 0xAA, 0x55, 0xFF] = Some 1 \<and>
   make_packet 0x54 [1] = Inr [0xAA, 0x55, 0x06, 0x54, 0x01, 0x5A] \<and>
   decode_step [0xAA, 0x55, 0x06, 0x54, 0x01, 0x5A] = (0, ValidFrame 0x54 [1] 6, []) \<and>
   decode_step ([0x01, 0xAA, 0x55, 0xFF] @ [0xAA, 0x55, 0x06, 0x54, 0x01, 0x5A]) =
     (1, NoFrameYet, [0xAA, 0x55, 0xFF, 0xAA, 0x55, 0x06, 0x54, 0x01, 0x5A])"
  by (simp add: make_packet_def Let_def HEADER1_def HEADER2_def checksum_def and_ff decode_step_def)

subsection \<open>The buffer after a pass of the inner loop\<close>

lemma find_header_Some0:
  "find_header b = Some 0 \<Longrightarrow> map unat (take 2 b) = [HEADER1, HEADER2]"
  by (induction b rule: find_header.induct) (auto split: if_splits)

lemma decode_step_NoFrameYet:
  assumes "decode_step buffer = (k, NoFrameYet, b')"
  shows "length b' < 4 \<or> (find_header b' = Some 0 \<and> length b' < unat (b' ! 2))"
proof (cases "find_header buffer")
  case None
  with assms show ?thesis by (simp add: decode_step_def)
next
  case (Some j)
  from find_header_drop [OF Some] assms Some show ?thesis
    by (auto simp: decode_step_def Let_def split: if_splits)
qed

text \<open>
  C4 (buffer invariant), as the code has it. After every pass of the inner loop that
  ends without an exception, the buffer holds fewer than five bytes (of any content:
  the guard of line 227 does not look at them), or it starts with the marker and is
  shorter than the length its third byte declares.
\<close>

theorem drain_buffer:
  assumes "drain clock buffer s = (Returned, buffer', s')"
  shows "length buffer' < 5 \<or> rawbuffer_invariant buffer'"
  using assms
proof (induction clock buffer s rule: drain.induct)
  case (1 clock buffer s)
  show ?case
  proof (cases "5 \<le> length buffer")
    case False
    with "1.prems" show ?thesis by (simp add: drain.simps [of clock buffer s])
  next
    case True
    obtain k r b where d: "decode_step buffer = (k, r, b)" by (cases "decode_step buffer") auto
    show ?thesis
    proof (cases r)
      case NoFrameYet
      with "1.prems" True d have "buffer' = b" by (simp add: drain.simps [of clock buffer s])
      with decode_step_NoFrameYet [of buffer k b] d NoFrameYet show ?thesis
        by (auto simp: rawbuffer_invariant_def dest: find_header_Some0)
    next
      case (InvalidDiscard n)
      with "1.prems" True d have "drain clock b s = (Returned, buffer', s')"
        by (simp add: drain.simps [of clock buffer s])
      with "1.IH"(1) [OF True d [symmetric] refl InvalidDiscard] show ?thesis by simp
    next
      case (ValidFrame c dat n)
      with "1.prems" True d
      have "drain clock b ((process_received_data (clock (ticks s)) c dat s)\<lparr>ticks := Suc (ticks s)\<rparr>)
              = (Returned, buffer', s')"
        by (simp add: drain.simps [of clock buffer s])
      with "1.IH"(2) [OF True d [symmetric] refl ValidFrame] show ?thesis by simp
    next
      case (DecodeRaised e)
      with "1.prems" True d show ?thesis by (simp add: drain.simps [of clock buffer s])
    qed
  qed
qed

theorem drain_buffer_witness:
  "drain (\<lambda>n. 0) [0x00, 0xAA, 0x55, 0x09, 0x01, 0x02] (example_session 0) =
     (Returned, [0xAA, 0x55, 0x09, 0x01, 0x02], example_session 0) \<and>
   rawbuffer_invariant [0xAA, 0x55, 0x09, 0x01, 0x02]"
proof -
  have d: "drain (\<lambda>n. 0) [0x00, 0xAA, 0x55, 0x09, 0x01, 0x02] (example_session 0) =
     (Returned, [0xAA, 0x55, 0x09, 0x01, 0x02], example_session 0)"
    by (simp add: drain.simps decode_step_def HEADER1_def HEADER2_def)
  from drain_buffer [OF d] d show ?thesis by simp
qed

text \<open>
  The claim as stated fails below five bytes: three bytes of garbage are not looked at
  and stay in the buffer, which is then neither empty nor starts with the marker.
\<close>

theorem drain_buffer_counterexample:
  "drain (\<lambda>n. 0) [0x01, 0x02, 0x03] (example_session 0) =
     (Returned, [0x01, 0x02, 0x03], example_session 0) \<and>
   \<not> rawbuffer_invariant [0x01, 0x02, 0x03]"
  by (simp add: drain.simps rawbuffer_invariant_def HEADER1_def)

subsection \<open>Frame errors and the session state\<close>

lemma decode_step_zero_length:
  "decode_step [0xAA, 0x55, 0x00, 0x00, 0x00] =
     (0, DecodeRaised IndexError, [0xAA, 0x55, 0x00, 0x00, 0x00])"
  by (simp add: decode_step_def HEADER1_def HEADER2_def)

text \<open>
  The decode step raises on one kind of input only: a candidate frame, behind the
  marker, whose length byte is 0. Declared lengths 1, 2 and 3 never pass the checksum
  test, so line 244 is not reached with a short packet.
\<close>

lemma decode_step_marked_raises:
  fixes a c l d :: byte
  assumes "unat a = HEADER1" "unat c = HEADER2"
    and "decode_step (a # c # l # d # r) = (k, DecodeRaised e, b)"
  shows "l = 0 \<and> e = IndexError"
proof -
  have fh: "find_header (a # c # l # d # r) = Some 0" using assms(1,2) by simp
  consider "unat l = 0" | "unat l = 1" | "unat l = 2" | "unat l = 3" | "4 \<le> unat l"
    by linarith
  then show ?thesis
  proof cases
    case 1
    then have "l = 0" by (simp add: unat_eq_0)
    with assms(3) fh show ?thesis by (simp add: decode_step_def)
  next
    case 2
    with assms fh show ?thesis
      by (simp add: decode_step_def checksum_def HEADER1_def)
  next
    case 3
    have "take 2 (a # c # l # d # r) = [a, c]" by simp
    with 3 assms fh show ?thesis
      by (simp add: decode_step_def checksum_def and_ff HEADER1_def HEADER2_def)
  next
    case 4
    have "take 3 (a # c # l # d # r) = [a, c, l]" by simp
    with 4 assms fh show ?thesis
      by (simp add: decode_step_def checksum_def and_ff HEADER1_def HEADER2_def)
  next
    case 5
    then have "3 < length (take (unat l) (a # c # l # d # r))" if "unat l \<le> length (a # c # l # d # r)"
      using that by simp
    with 5 assms(3) fh show ?thesis
      by (auto simp: decode_step_def Let_def split: if_splits)
  qed
qed

lemma decode_step_raises:
  assumes "decode_step buffer = (k, DecodeRaised e, b)"
  shows "find_header buffer = Some k \<and> 4 \<le> length (drop k buffer) \<and>
         drop k buffer ! 2 = 0 \<and> e = IndexError"
proof (cases "find_header buffer")
  case None
  with assms show ?thesis by (simp add: decode_step_def)
next
  case (Some j)
  with assms have jk: "j = k" and len: "4 \<le> length (drop j buffer)"
    by (auto simp: decode_step_def Let_def split: if_splits)
  then obtain a c l d r where b: "drop j buffer = a # c # l # d # r"
    by (cases "drop j buffer"; cases "tl (drop j buffer)"; cases "tl (tl (drop j buffer))";
        cases "tl (tl (tl (drop j buffer)))") auto
  from find_header_Some0 [OF find_header_drop [OF Some]] b
  have m: "unat a = HEADER1" "unat c = HEADER2" by simp_all
  from assms decode_step_resync [OF Some] have "snd (decode_step (a # c # l # d # r)) = (DecodeRaised e, b)"
    by (simp add: b)
  then have "decode_step (a # c # l # d # r) = (fst (decode_step (a # c # l # d # r)), DecodeRaised e, b)"
    by (metis prod.collapse)
  from decode_step_marked_raises [OF m this] Some jk len b show ?thesis by simp
qed

text \<open>
  C3 (frame-error containment) fails in the code for a declared length of 0. The five
  bytes \<open>AA 55 00 00 00\<close> arrive on a connected session: the candidate packet is
  empty, \<^verbatim>\<open>packet[-1]\<close> raises \<^verbatim>\<open>IndexError\<close>, the handler of line 251 catches it,
  and the read loop ends with the session marked as not connected; the second pass of
  the script is never run. Every other frame error is discarded and the loop goes on.
\<close>

theorem zero_length_frame_disconnects:
  "is_connected (example_session 0) \<and>
   receive_data (\<lambda>n. 0) [Available [0xAA, 0x55, 0x00, 0x00, 0x00], Available []] []
       (example_session 0) =
     (example_session 0)\<lparr>is_connected := False\<rparr>"
  by (simp add: drain.simps decode_step_zero_length example_session_def init_controller_def)

subsection \<open>Leaving the Connected state\<close>

lemma receive_data_read_error:
  "is_running s \<Longrightarrow> receive_data clock (ReadError # rs) buffer s = s\<lparr>is_connected := False\<rparr>"
  by simp

lemma disconnect_idempotent: "\<not> is_connected s \<Longrightarrow> disconnect s = (Returned, s)"
  by (simp add: disconnect_def)

lemma pack_hhh_zero: "pack_hhh 0 0 0 = Inr [0, 0, 0, 0, 0, 0]"
  by (simp add: pack_hhh_def pack_h_def)

lemma send_packet_velocity_returns:
  assumes "length data = 6"
  shows "fst (send_packet CMD_VELOCITY data s) = Returned"
proof -
  have "make_packet CMD_VELOCITY data \<noteq> Inl StructError"
    using assms by (simp add: make_packet_Inr CMD_VELOCITY_def)
  then show ?thesis
    by (auto simp: send_packet_def make_packet_def Let_def split: option.splits sum.splits if_splits)
qed

lemma send_packet_fields:
  "current_velocity (snd (send_packet c d s)) = current_velocity s"
  "is_connected (snd (send_packet c d s)) = is_connected s"
  "map_option is_open (serial_conn (snd (send_packet c d s))) = map_option is_open (serial_conn s)"
  by (auto simp: send_packet_def serial_write_def split: option.splits sum.splits if_splits)

text \<open>
  The two paths that do what the exit guarantee asks: \<^verbatim>\<open>disconnect\<close> on a connected
  session returns, zeroes the commanded velocity, closes the port and clears both
  flags (and \<^verbatim>\<open>__exit__\<close> is \<^verbatim>\<open>disconnect\<close>).
\<close>

lemma disconnect_connected:
  assumes "is_connected s"
  shows "fst (disconnect s) = Returned"
    and "current_velocity (snd (disconnect s)) = \<lparr>vel_vx = 0, vel_vy = 0, vel_vw = 0\<rparr>"
    and "\<not> is_connected (snd (disconnect s))"
    and "\<not> is_running (snd (disconnect s))"
    and "map_option is_open (serial_conn (snd (disconnect s))) = map_option (\<lambda>t. False) (serial_conn s)"
proof -
  obtain s1 where sp: "send_packet CMD_VELOCITY [0, 0, 0, 0, 0, 0] s = (Returned, s1)"
    using send_packet_velocity_returns [of "[0, 0, 0, 0, 0, 0]" s]
    by (cases "send_packet CMD_VELOCITY [0, 0, 0, 0, 0, 0] s") auto
  have sv: "set_velocity 0 0 0 s =
              (Returned, s1\<lparr>current_velocity := \<lparr>vel_vx = 0, vel_vy = 0, vel_vw = 0\<rparr>\<rparr>)"
    using assms sp by (simp add: set_velocity_def py_int_def pack_hhh_zero)
  have op: "map_option is_open (serial_conn s1) = map_option is_open (serial_conn s)"
    using send_packet_fields(3) [of CMD_VELOCITY "[0, 0, 0, 0, 0, 0]" s] sp by simp
  show "fst (disconnect s) = Returned" using assms sv by (simp add: disconnect_def)
  show "current_velocity (snd (disconnect s)) = \<lparr>vel_vx = 0, vel_vy = 0, vel_vw = 0\<rparr>"
    using assms sv by (simp add: disconnect_def)
  show "\<not> is_connected (snd (disconnect s))" using assms sv by (simp add: disconnect_def)
  show "\<not> is_running (snd (disconnect s))" using assms sv by (simp add: disconnect_def)
  show "map_option is_open (serial_conn (snd (disconnect s))) = map_option (\<lambda>t. False) (serial_conn s)"
    using assms sv op
    by (cases "serial_conn s1"; cases "serial_conn s")
       (auto simp: disconnect_def serial_close_def)
qed

text \<open>
  C9 (scoped exit guarantee) fails in the code on the read-error path. A connected
  session is moving at 0.3 m/s when the transport read raises inside the read loop:
  the handler of line 251 only clears \<open>is_connected\<close>. The \<^verbatim>\<open>__exit__\<close> that follows
  finds the session not connected and does nothing, so the commanded velocity is still
  0.3, no stop command has been written, and the port is still open.
\<close>

theorem read_error_leaves_port_open:
  "receive_data (\<lambda>n. 0) [ReadError] []
     ((example_session 0)\<lparr>current_velocity := \<lparr>vel_vx = 0.3, vel_vy = 0, vel_vw = 0\<rparr>\<rparr>) =
     (example_session 0)\<lparr>current_velocity := \<lparr>vel_vx = 0.3, vel_vy = 0, vel_vw = 0\<rparr>,
                           is_connected := False\<rparr> \<and>
   exit_scope ((example_session 0)\<lparr>current_velocity := \<lparr>vel_vx = 0.3, vel_vy = 0, vel_vw = 0\<rparr>,
                           is_connected := False\<rparr>) =
     (Returned,
      (example_session 0)\<lparr>current_velocity := \<lparr>vel_vx = 0.3, vel_vy = 0, vel_vw = 0\<rparr>,
                           is_connected := False\<rparr>) \<and>
   serial_conn ((example_session 0)\<lparr>current_velocity := \<lparr>vel_vx = 0.3, vel_vy = 0, vel_vw = 0\<rparr>,
                           is_connected := False\<rparr>) =
     Some \<lparr>is_open = True, written = [], write_fails = False\<rparr>"
  by (simp add: example_session_def init_controller_def exit_scope_def disconnect_def)

subsection \<open>Velocity commands out of range\<close>








subsection \<open>Telemetry decoding\<close>

lemma unpack_H_arith: "unpack_H lo hi = uint lo + 256 * uint hi"
proof -
  have lo: "0 \<le> uint lo" "uint lo < 256" and hi: "0 \<le> uint hi" "uint hi < 256"
    using uint_bounded [of lo] uint_bounded [of hi] by simp_all
  have "concat_bit 8 (uint lo) (uint hi) = uint lo + 256 * uint hi"
    using lo by (simp add: concat_bit_eq take_bit_int_eq_self push_bit_eq_mult)
  moreover have "take_bit 16 (uint lo + 256 * uint hi) = uint lo + 256 * uint hi"
    using lo hi by (intro take_bit_int_eq_self) simp_all
  ultimately show ?thesis
    unfolding unpack_H_def word_cat_eq' uint_word_of_int_eq by simp
qed

lemma unpack_h_arith:
  "unpack_h lo hi =
     (if uint lo + 256 * uint hi < 32768 then uint lo + 256 * uint hi
      else uint lo + 256 * uint hi - 65536)"
proof -
  let ?u = "uint lo + 256 * uint hi"
  have lo: "0 \<le> uint lo" "uint lo < 256" and hi: "0 \<le> uint hi" "uint hi < 256"
    using uint_bounded [of lo] uint_bounded [of hi] by simp_all
  then have u: "0 \<le> ?u" "?u < 65536" by simp_all
  have "unpack_h lo hi = signed_take_bit 15 (unpack_H lo hi)"
    by (simp add: unpack_h_def unpack_H_def sint_uint)
  also have "\<dots> = take_bit 16 (?u + 32768) - 32768"
    by (simp add: unpack_H_arith signed_take_bit_eq_take_bit_shift)
  also have "\<dots> = (?u + 32768) mod 65536 - 32768"
    by (simp add: take_bit_eq_mod)
  also have "\<dots> = (if ?u < 32768 then ?u else ?u - 65536)"
  proof (cases "?u < 32768")
    case True
    with u have "(?u + 32768) mod 65536 = ?u + 32768" by (intro mod_pos_pos_trivial) simp_all
    with True show ?thesis by simp
  next
    case False
    have "(?u + 32768) mod 65536 = (?u + 32768 - 65536) mod 65536"
      by (simp only: minus_mod_self2)
    also from False u have "\<dots> = ?u + 32768 - 65536" by (intro mod_pos_pos_trivial) simp_all
    finally show ?thesis using False by simp
  qed
  finally show ?thesis .
qed

lemma process_other:
  assumes "cmd_id \<noteq> ID_INTEGRATED_DATA \<or> length data \<noteq> 20"
  shows "process_received_data now cmd_id data s = s\<lparr>last_update_time := now\<rparr>"
  using assms by (auto simp: process_received_data_def Let_def)

lemma process_last_update_time:
  "last_update_time (process_received_data now cmd_id data s) = now"
  by (simp add: process_received_data_def Let_def split: sum.splits)

lemma process_telemetry:
  assumes "length data = 20"
  shows "process_received_data now ID_INTEGRATED_DATA data s =
    (let dt = now - last_update_time s;
         vx = real_of_int (unpack_h (data ! 12) (data ! 13)) / 1000;
         vy = real_of_int (unpack_h (data ! 14) (data ! 15)) / 1000;
         vw = real_of_int (unpack_h (data ! 16) (data ! 17)) / 1000;
         od = odometry_data s;
         th = odom_theta od
     in s\<lparr>imu_data :=
            \<lparr>accel_x = (real_of_int (unpack_h (data ! 0) (data ! 1)) / 32768) * 2 * GRAVITY,
             accel_y = (real_of_int (unpack_h (data ! 2) (data ! 3)) / 32768) * 2 * GRAVITY,
             accel_z = (real_of_int (unpack_h (data ! 4) (data ! 5)) / 32768) * 2 * GRAVITY,
             gyro_x = (real_of_int (unpack_h (data ! 6) (data ! 7)) / 32768) * 500 * (pi / 180),
             gyro_y = (real_of_int (unpack_h (data ! 8) (data ! 9)) / 32768) * 500 * (pi / 180),
             gyro_z = (real_of_int (unpack_h (data ! 10) (data ! 11)) / 32768) * 500 * (pi / 180)\<rparr>,
          odometry_data :=
            (if 0 < dt then
               \<lparr>odom_x = odom_x od + (vx * cos th - vy * sin th) * dt,
                odom_y = odom_y od + (vx * sin th + vy * cos th) * dt,
                odom_theta = th + vw * dt,
                odom_vx = vx, odom_vy = vy, odom_vw = vw\<rparr>
             else \<lparr>odom_x = odom_x od, odom_y = odom_y od, odom_theta = th,
                   odom_vx = vx, odom_vy = vy, odom_vw = vw\<rparr>),
          battery_voltage := real_of_int (unpack_H (data ! 18) (data ! 19)) / 100,
          last_update_time := now\<rparr>)"
  using assms
  by (simp add: process_received_data_def unpack_hhhhhhhhhH_def Let_def)

text \<open>
  C7 (telemetry scaling). A 20-byte telemetry payload is read as ten little-endian
  16-bit fields, the first nine signed and the last unsigned (the value of a field is
  its low byte plus 256 times its high byte, less 65536 for a signed field from 32768
  on), and the state after the frame holds: each accelerometer axis
  \<open>(raw / 32768) * 2 * 9.80665\<close>, each gyro axis \<open>(raw / 32768) * 500 * (pi / 180)\<close>,
  each body velocity \<open>raw / 1000\<close>, the battery \<open>raw / 100\<close>. In particular the bytes
  \<open>00 40\<close> (raw 16384) in the first accelerometer field give
  \<open>(16384 / 32768) * 2 * 9.80665\<close>, and the bytes \<open>2C 01\<close> (raw 300) in the first
  velocity field give 0.3.
\<close>

theorem telemetry_scaling:
  fixes now :: real and s :: XtarkR20Controller and data :: "byte list" and lo hi :: byte
  assumes "length data = 20"
  defines "s' \<equiv> process_received_data now ID_INTEGRATED_DATA data s"
  shows "accel_x (imu_data s') = (real_of_int (unpack_h (data ! 0) (data ! 1)) / 32768) * 2 * 9.80665 \<and>
         accel_y (imu_data s') = (real_of_int (unpack_h (data ! 2) (data ! 3)) / 32768) * 2 * 9.80665 \<and>
         accel_z (imu_data s') = (real_of_int (unpack_h (data ! 4) (data ! 5)) / 32768) * 2 * 9.80665 \<and>
         gyro_x (imu_data s') = (real_of_int (unpack_h (data ! 6) (data ! 7)) / 32768) * 500 * (pi / 180) \<and>
         gyro_y (imu_data s') = (real_of_int (unpack_h (data ! 8) (data ! 9)) / 32768) * 500 * (pi / 180) \<and>
         gyro_z (imu_data s') = (real_of_int (unpack_h (data ! 10) (data ! 11)) / 32768) * 500 * (pi / 180) \<and>
         odom_vx (odometry_data s') = real_of_int (unpack_h (data ! 12) (data ! 13)) / 1000 \<and>
         odom_vy (odometry_data s') = real_of_int (unpack_h (data ! 14) (data ! 15)) / 1000 \<and>
         odom_vw (odometry_data s') = real_of_int (unpack_h (data ! 16) (data ! 17)) / 1000 \<and>
         battery_voltage s' = real_of_int (unpack_H (data ! 18) (data ! 19)) / 100 \<and>
         unpack_h lo hi = (if uint lo + 256 * uint hi < 32768 then uint lo + 256 * uint hi
                           else uint lo + 256 * uint hi - 65536) \<and>
         unpack_H lo hi = uint lo + 256 * uint hi \<and>
         (data ! 0 = 0x00 \<and> data ! 1 = 0x40 \<longrightarrow>
            accel_x (imu_data s') = (16384 / 32768) * 2 * 9.80665) \<and>
         (data ! 12 = 0x2C \<and> data ! 13 = 0x01 \<longrightarrow> odom_vx (odometry_data s') = 0.3)"
proof -
  have a: "unpack_h 0x00 0x40 = 16384" and v: "unpack_h 0x2C 0x01 = 300"
    by (simp_all add: unpack_h_arith)
  show ?thesis
    unfolding s'_def process_telemetry [OF assms(1)]
    using unpack_h_arith [of lo hi] unpack_H_arith [of lo hi] a v
    by (simp add: Let_def GRAVITY_def)
qed

theorem telemetry_scaling_witness:
  "length scaled_sample = 20 \<and>
   accel_x (imu_data (process_received_data 1 ID_INTEGRATED_DATA scaled_sample (example_session 0)))
     = (16384 / 32768) * 2 * 9.80665 \<and>
   odom_vx (odometry_data (process_received_data 1 ID_INTEGRATED_DATA scaled_sample (example_session 0)))
     = 0.3 \<and>
   odom_vy (odometry_data (process_received_data 1 ID_INTEGRATED_DATA scaled_sample (example_session 0)))
     = - 0.2 \<and>
   battery_voltage (process_received_data 1 ID_INTEGRATED_DATA scaled_sample (example_session 0)) = 12"
proof -
  let ?s = "process_received_data 1 ID_INTEGRATED_DATA scaled_sample (example_session 0)"
  have l: "length scaled_sample = 20" by (simp add: scaled_sample_def)
  have n: "scaled_sample ! 0 = 0x00 \<and> scaled_sample ! 1 = 0x40"
    "scaled_sample ! 12 = 0x2C \<and> scaled_sample ! 13 = 0x01"
    and m: "scaled_sample ! 14 = 0x38" "scaled_sample ! 15 = 0xFF"
    "scaled_sample ! 18 = 0xB0" "scaled_sample ! 19 = 0x04"
    by (simp_all add: scaled_sample_def)
  note t = telemetry_scaling [OF l, where now = 1 and s = "example_session 0"]
  from t n(1) have a: "accel_x (imu_data ?s) = (16384 / 32768) * 2 * 9.80665" by blast
  from t n(2) have v: "odom_vx (odometry_data ?s) = 0.3" by blast
  from t have "odom_vy (odometry_data ?s) =
      real_of_int (unpack_h (scaled_sample ! 14) (scaled_sample ! 15)) / 1000" by blast
  then have w: "odom_vy (odometry_data ?s) = - 0.2"
    by (simp add: m unpack_h_arith)
  from t have "battery_voltage ?s =
      real_of_int (unpack_H (scaled_sample ! 18) (scaled_sample ! 19)) / 100" by blast
  then have b: "battery_voltage ?s = 12"
    by (simp add: m unpack_H_arith)
  from l a v w b show ?thesis by blast
qed

subsection \<open>Odometry\<close>

lemma forward_sample_fields:
  "length forward_sample = 20"
  "unpack_h (forward_sample ! 12) (forward_sample ! 13) = 1000"
  "unpack_h (forward_sample ! 14) (forward_sample ! 15) = 0"
  "unpack_h (forward_sample ! 16) (forward_sample ! 17) = 0"
  by (simp_all add: forward_sample_def unpack_h_arith)

lemma odometry_update:
  fixes now :: real and s :: XtarkR20Controller and data :: "byte list"
  assumes "length data = 20"
  defines "s' \<equiv> process_received_data now ID_INTEGRATED_DATA data s"
    and "dt \<equiv> now - last_update_time s"
    and "th \<equiv> odom_theta (odometry_data s)"
    and "vx \<equiv> real_of_int (unpack_h (data ! 12) (data ! 13)) / 1000"
    and "vy \<equiv> real_of_int (unpack_h (data ! 14) (data ! 15)) / 1000"
    and "vw \<equiv> real_of_int (unpack_h (data ! 16) (data ! 17)) / 1000"
  shows "odom_vx (odometry_data s') = vx" "odom_vy (odometry_data s') = vy"
    "odom_vw (odometry_data s') = vw"
    "odom_x (odometry_data s') =
       (if 0 < dt then odom_x (odometry_data s) + (vx * cos th - vy * sin th) * dt
        else odom_x (odometry_data s))"
    "odom_y (odometry_data s') =
       (if 0 < dt then odom_y (odometry_data s) + (vx * sin th + vy * cos th) * dt
        else odom_y (odometry_data s))"
    "odom_theta (odometry_data s') = (if 0 < dt then th + vw * dt else th)"
    "last_update_time s' = now"
  unfolding s'_def process_telemetry [OF assms(1)] dt_def th_def vx_def vy_def vw_def
  by (simp_all add: Let_def)

lemma unit_forward_step:
  assumes "length data = 20"
    and "unpack_h (data ! 12) (data ! 13) = 1000"
    and "unpack_h (data ! 14) (data ! 15) = 0"
    and "unpack_h (data ! 16) (data ! 17) = 0"
    and "odom_theta (odometry_data s) = 0" and "odom_y (odometry_data s) = 0"
  defines "s' \<equiv> process_received_data (last_update_time s + 1) ID_INTEGRATED_DATA data s"
  shows "odom_x (odometry_data s') = odom_x (odometry_data s) + 1"
    and "odom_y (odometry_data s') = 0" and "odom_theta (odometry_data s') = 0"
    and "last_update_time s' = last_update_time s + 1"
  unfolding s'_def
  using assms(2-6)
  by (simp_all add: odometry_update [OF assms(1)])

text \<open>
  C5 (odometry integration step). On an accepted 20-byte telemetry sample, with
  \<open>dt\<close> the time since \<open>last_update_time\<close>, \<open>th\<close> the heading before the update and
  \<open>(vx, vy, vw)\<close> the body velocity just decoded from the sample (raw / 1000): when
  \<open>0 < dt\<close> the pose changes by exactly \<open>(vx * cos th - vy * sin th) * dt\<close>,
  \<open>(vx * sin th + vy * cos th) * dt\<close> and \<open>vw * dt\<close>; otherwise the pose is unchanged.
  Consequently, from the pose (0, 0, 0), three consecutive samples with measured
  velocity (1, 0, 0), each one second after the previous update, give the pose
  (3, 0, 0).
\<close>

theorem odometry_step:
  fixes now :: real and s :: XtarkR20Controller and data :: "byte list"
  assumes "length data = 20"
  defines "s' \<equiv> process_received_data now ID_INTEGRATED_DATA data s"
    and "dt \<equiv> now - last_update_time s"
    and "th \<equiv> odom_theta (odometry_data s)"
    and "t0 \<equiv> last_update_time s"
  defines "vx \<equiv> odom_vx (odometry_data s')"
    and "vy \<equiv> odom_vy (odometry_data s')"
    and "vw \<equiv> odom_vw (odometry_data s')"
  shows "vx = real_of_int (unpack_h (data ! 12) (data ! 13)) / 1000 \<and>
         vy = real_of_int (unpack_h (data ! 14) (data ! 15)) / 1000 \<and>
         vw = real_of_int (unpack_h (data ! 16) (data ! 17)) / 1000 \<and>
         (if 0 < dt
          then odom_x (odometry_data s') =
                 odom_x (odometry_data s) + (vx * cos th - vy * sin th) * dt \<and>
               odom_y (odometry_data s') =
                 odom_y (odometry_data s) + (vx * sin th + vy * cos th) * dt \<and>
               odom_theta (odometry_data s') = th + vw * dt
          else odom_x (odometry_data s') = odom_x (odometry_data s) \<and>
               odom_y (odometry_data s') = odom_y (odometry_data s) \<and>
               odom_theta (odometry_data s') = th) \<and>
         (vx = 1 \<and> vy = 0 \<and> vw = 0 \<and>
          odom_x (odometry_data s) = 0 \<and> odom_y (odometry_data s) = 0 \<and> th = 0 \<longrightarrow>
            odom_x (odometry_data
              (process_received_data (t0 + 3) ID_INTEGRATED_DATA data
                (process_received_data (t0 + 2) ID_INTEGRATED_DATA data
                  (process_received_data (t0 + 1) ID_INTEGRATED_DATA data s)))) = 3 \<and>
            odom_y (odometry_data
              (process_received_data (t0 + 3) ID_INTEGRATED_DATA data
                (process_received_data (t0 + 2) ID_INTEGRATED_DATA data
                  (process_received_data (t0 + 1) ID_INTEGRATED_DATA data s)))) = 0 \<and>
            odom_theta (odometry_data
              (process_received_data (t0 + 3) ID_INTEGRATED_DATA data
                (process_received_data (t0 + 2) ID_INTEGRATED_DATA data
                  (process_received_data (t0 + 1) ID_INTEGRATED_DATA data s)))) = 0)"
proof -
  note u = odometry_update [OF assms(1), of now s]
  have v: "vx = real_of_int (unpack_h (data ! 12) (data ! 13)) / 1000"
    "vy = real_of_int (unpack_h (data ! 14) (data ! 15)) / 1000"
    "vw = real_of_int (unpack_h (data ! 16) (data ! 17)) / 1000"
    unfolding vx_def vy_def vw_def s'_def by (simp_all add: u)
  have step: "if 0 < dt
          then odom_x (odometry_data s') =
                 odom_x (odometry_data s) + (vx * cos th - vy * sin th) * dt \<and>
               odom_y (odometry_data s') =
                 odom_y (odometry_data s) + (vx * sin th + vy * cos th) * dt \<and>
               odom_theta (odometry_data s') = th + vw * dt
          else odom_x (odometry_data s') = odom_x (odometry_data s) \<and>
               odom_y (odometry_data s') = odom_y (odometry_data s) \<and>
               odom_theta (odometry_data s') = th"
    unfolding v unfolding s'_def dt_def th_def by (simp add: u)
  have three: "odom_x (odometry_data
              (process_received_data (t0 + 3) ID_INTEGRATED_DATA data
                (process_received_data (t0 + 2) ID_INTEGRATED_DATA data
                  (process_received_data (t0 + 1) ID_INTEGRATED_DATA data s)))) = 3 \<and>
            odom_y (odometry_data
              (process_received_data (t0 + 3) ID_INTEGRATED_DATA data
                (process_received_data (t0 + 2) ID_INTEGRATED_DATA data
                  (process_received_data (t0 + 1) ID_INTEGRATED_DATA data s)))) = 0 \<and>
            odom_theta (odometry_data
              (process_received_data (t0 + 3) ID_INTEGRATED_DATA data
                (process_received_data (t0 + 2) ID_INTEGRATED_DATA data
                  (process_received_data (t0 + 1) ID_INTEGRATED_DATA data s)))) = 0"
    if h: "vx = 1" "vy = 0" "vw = 0" "odom_x (odometry_data s) = 0" "odom_y (odometry_data s) = 0" "th = 0"
  proof -
    from h(1-3) v have r: "unpack_h (data ! 12) (data ! 13) = 1000"
      "unpack_h (data ! 14) (data ! 15) = 0" "unpack_h (data ! 16) (data ! 17) = 0"
      by simp_all
    let ?s1 = "process_received_data (t0 + 1) ID_INTEGRATED_DATA data s"
    let ?s2 = "process_received_data (t0 + 2) ID_INTEGRATED_DATA data ?s1"
    let ?s3 = "process_received_data (t0 + 3) ID_INTEGRATED_DATA data ?s2"
    have s1: "odom_x (odometry_data ?s1) = 1" "odom_y (odometry_data ?s1) = 0"
      "odom_theta (odometry_data ?s1) = 0" "last_update_time ?s1 = t0 + 1"
      using unit_forward_step [OF assms(1) r, of s] h(4-6) by (simp_all add: t0_def th_def)
    have s2: "odom_x (odometry_data ?s2) = 2" "odom_y (odometry_data ?s2) = 0"
      "odom_theta (odometry_data ?s2) = 0" "last_update_time ?s2 = t0 + 2"
      using unit_forward_step [OF assms(1) r, of ?s1] s1 by (simp_all add: add.assoc)
    have s3: "odom_x (odometry_data ?s3) = 3" "odom_y (odometry_data ?s3) = 0"
      "odom_theta (odometry_data ?s3) = 0"
      using unit_forward_step [OF assms(1) r, of ?s2] s2 by (simp_all add: add.assoc)
    then show ?thesis by simp
  qed
  from v step three show ?thesis by blast
qed

lemma example_session_fields:
  "last_update_time (example_session t0) = t0"
  "odom_x (odometry_data (example_session t0)) = 0"
  "odom_y (odometry_data (example_session t0)) = 0"
  "odom_theta (odometry_data (example_session t0)) = 0"
  "is_connected (example_session t0)" "is_running (example_session t0)"
  by (simp_all add: example_session_def init_controller_def)

theorem odometry_step_witness:
  "length forward_sample = 20 \<and>
   odom_x (odometry_data (process_received_data 1 ID_INTEGRATED_DATA forward_sample (example_session 0))) = 1 \<and>
   odom_x (odometry_data (process_received_data 0 ID_INTEGRATED_DATA forward_sample (example_session 0))) = 0 \<and>
   odom_x (odometry_data
     (process_received_data 3 ID_INTEGRATED_DATA forward_sample
       (process_received_data 2 ID_INTEGRATED_DATA forward_sample
         (process_received_data 1 ID_INTEGRATED_DATA forward_sample (example_session 0))))) = 3 \<and>
   odom_y (odometry_data
     (process_received_data 3 ID_INTEGRATED_DATA forward_sample
       (process_received_data 2 ID_INTEGRATED_DATA forward_sample
         (process_received_data 1 ID_INTEGRATED_DATA forward_sample (example_session 0))))) = 0 \<and>
   odom_theta (odometry_data
     (process_received_data 3 ID_INTEGRATED_DATA forward_sample
       (process_received_data 2 ID_INTEGRATED_DATA forward_sample
         (process_received_data 1 ID_INTEGRATED_DATA forward_sample (example_session 0))))) = 0"
proof -
  note f = forward_sample_fields and e = example_session_fields [of 0]
  note t1 = odometry_step [OF f(1), where now = 1 and s = "example_session 0"]
  note t0 = odometry_step [OF f(1), where now = 0 and s = "example_session 0"]
  from t1 have a: "odom_x (odometry_data (process_received_data 1 ID_INTEGRATED_DATA forward_sample (example_session 0))) = 1"
    by (simp add: f e)
  from t0 have b: "odom_x (odometry_data (process_received_data 0 ID_INTEGRATED_DATA forward_sample (example_session 0))) = 0"
    by (simp add: f e)
  from t1 have c: "odom_x (odometry_data
     (process_received_data 3 ID_INTEGRATED_DATA forward_sample
       (process_received_data 2 ID_INTEGRATED_DATA forward_sample
         (process_received_data 1 ID_INTEGRATED_DATA forward_sample (example_session 0))))) = 3 \<and>
   odom_y (odometry_data
     (process_received_data 3 ID_INTEGRATED_DATA forward_sample
       (process_received_data 2 ID_INTEGRATED_DATA forward_sample
         (process_received_data 1 ID_INTEGRATED_DATA forward_sample (example_session 0))))) = 0 \<and>
   odom_theta (odometry_data
     (process_received_data 3 ID_INTEGRATED_DATA forward_sample
       (process_received_data 2 ID_INTEGRATED_DATA forward_sample
         (process_received_data 1 ID_INTEGRATED_DATA forward_sample (example_session 0))))) = 0"
    by (simp add: f e)
  from f(1) a b c show ?thesis by blast
qed

text \<open>
  C6 (the \<open>dt\<close> of the integration), as the code has it. Every valid frame handed to
  \<^verbatim>\<open>_process_received_data\<close>, whatever its command id and payload length, sets
  \<open>last_update_time\<close> to the time it is processed. A frame with another command id,
  or a telemetry frame whose payload is not 20 bytes long, changes nothing else: no
  telemetry, pose or battery state. The \<open>dt\<close> with which an accepted telemetry sample
  is integrated is therefore the time since the previous valid frame of any kind.
\<close>

theorem dt_reference:
  fixes t1 t2 :: real and s :: XtarkR20Controller and data sample :: "byte list" and cmd_id :: nat
  assumes "length sample = 20"
  defines "s1 \<equiv> process_received_data t1 cmd_id data s"
  defines "s2 \<equiv> process_received_data t2 ID_INTEGRATED_DATA sample s1"
    and "th \<equiv> odom_theta (odometry_data s1)"
    and "vx \<equiv> real_of_int (unpack_h (sample ! 12) (sample ! 13)) / 1000"
    and "vy \<equiv> real_of_int (unpack_h (sample ! 14) (sample ! 15)) / 1000"
    and "vw \<equiv> real_of_int (unpack_h (sample ! 16) (sample ! 17)) / 1000"
  shows "last_update_time s1 = t1 \<and>
         (cmd_id \<noteq> ID_INTEGRATED_DATA \<or> length data \<noteq> 20 \<longrightarrow> s1 = s\<lparr>last_update_time := t1\<rparr>) \<and>
         (if 0 < t2 - t1
          then odom_x (odometry_data s2) =
                 odom_x (odometry_data s1) + (vx * cos th - vy * sin th) * (t2 - t1) \<and>
               odom_y (odometry_data s2) =
                 odom_y (odometry_data s1) + (vx * sin th + vy * cos th) * (t2 - t1) \<and>
               odom_theta (odometry_data s2) = th + vw * (t2 - t1)
          else odom_x (odometry_data s2) = odom_x (odometry_data s1) \<and>
               odom_y (odometry_data s2) = odom_y (odometry_data s1) \<and>
               odom_theta (odometry_data s2) = th)"
proof -
  have l: "last_update_time s1 = t1"
    unfolding s1_def by (rule process_last_update_time)
  have o: "cmd_id \<noteq> ID_INTEGRATED_DATA \<or> length data \<noteq> 20 \<longrightarrow> s1 = s\<lparr>last_update_time := t1\<rparr>"
    unfolding s1_def using process_other [of cmd_id data t1 s] by blast
  note u = odometry_update [OF assms(1), of t2 s1]
  have "if 0 < t2 - t1
          then odom_x (odometry_data s2) =
                 odom_x (odometry_data s1) + (vx * cos th - vy * sin th) * (t2 - t1) \<and>
               odom_y (odometry_data s2) =
                 odom_y (odometry_data s1) + (vx * sin th + vy * cos th) * (t2 - t1) \<and>
               odom_theta (odometry_data s2) = th + vw * (t2 - t1)
          else odom_x (odometry_data s2) = odom_x (odometry_data s1) \<and>
               odom_y (odometry_data s2) = odom_y (odometry_data s1) \<and>
               odom_theta (odometry_data s2) = th"
    unfolding s2_def th_def vx_def vy_def vw_def by (simp add: u l)
  with l o show ?thesis by blast
qed

theorem dt_reference_witness:
  "length forward_sample = 20 \<and>
   process_received_data 2 CMD_BEEPER [1] (example_session 0) =
     (example_session 0)\<lparr>last_update_time := 2\<rparr> \<and>
   odom_x (odometry_data
     (process_received_data 3 ID_INTEGRATED_DATA forward_sample
       (process_received_data 2 CMD_BEEPER [1] (example_session 0)))) = 1"
proof -
  note f = forward_sample_fields and e = example_session_fields [of 0]
  have c: "CMD_BEEPER \<noteq> ID_INTEGRATED_DATA"
    by (simp add: CMD_BEEPER_def ID_INTEGRATED_DATA_def)
  note t = dt_reference [OF f(1), where ?t1.0 = 2 and ?t2.0 = 3 and cmd_id = CMD_BEEPER
      and data = "[1]" and s = "example_session 0"]
  from t c have a: "process_received_data 2 CMD_BEEPER [1] (example_session 0) =
     (example_session 0)\<lparr>last_update_time := 2\<rparr>" by blast
  from t have "odom_x (odometry_data
     (process_received_data 3 ID_INTEGRATED_DATA forward_sample
       (process_received_data 2 CMD_BEEPER [1] (example_session 0)))) =
     odom_x (odometry_data (process_received_data 2 CMD_BEEPER [1] (example_session 0))) + 1"
    by (simp add: f a e)
  with a e have b: "odom_x (odometry_data
     (process_received_data 3 ID_INTEGRATED_DATA forward_sample
       (process_received_data 2 CMD_BEEPER [1] (example_session 0)))) = 1"
    by simp
  from f(1) a b show ?thesis by blast
qed

text \<open>
  The claim as stated fails: a telemetry sample is accepted at time 1, a valid frame
  with the beeper's command id is processed at time 2, and a second telemetry sample
  at time 3. The beeper frame moves the reference timestamp from 1 to 2, and the second
  sample is integrated over one second instead of the two seconds since the previous
  accepted sample: \<open>x\<close> ends at 2, not at 3.
\<close>

theorem dt_reference_counterexample:
  "last_update_time (process_received_data 1 ID_INTEGRATED_DATA forward_sample (init_controller 0)) = 1 \<and>
   last_update_time
     (process_received_data 2 CMD_BEEPER [1]
       (process_received_data 1 ID_INTEGRATED_DATA forward_sample (init_controller 0))) = 2 \<and>
   odom_x (odometry_data
     (process_received_data 1 ID_INTEGRATED_DATA forward_sample (init_controller 0))) = 1 \<and>
   odom_x (odometry_data
     (process_received_data 3 ID_INTEGRATED_DATA forward_sample
       (process_received_data 2 CMD_BEEPER [1]
         (process_received_data 1 ID_INTEGRATED_DATA forward_sample (init_controller 0))))) = 2"
proof -
  note f = forward_sample_fields
  let ?s1 = "process_received_data 1 ID_INTEGRATED_DATA forward_sample (init_controller 0)"
  have s1: "odom_x (odometry_data ?s1) = 1" "odom_theta (odometry_data ?s1) = 0"
    "last_update_time ?s1 = 1"
    by (simp_all add: odometry_update [OF f(1)] f init_controller_def)
  have s2: "process_received_data 2 CMD_BEEPER [1] ?s1 = ?s1\<lparr>last_update_time := 2\<rparr>"
    by (rule process_other) (simp add: CMD_BEEPER_def ID_INTEGRATED_DATA_def)
  have s3: "odom_x (odometry_data
      (process_received_data 3 ID_INTEGRATED_DATA forward_sample (?s1\<lparr>last_update_time := 2\<rparr>))) = 2"
    using odometry_update(4) [OF f(1), of 3 "?s1\<lparr>last_update_time := 2\<rparr>"]
    by (simp add: f s1)
  from s1 s2 s3 show ?thesis by simp
qed

end
